theory Spec2Isabelle
  imports Main
begin

section \<open>Characters and text\<close>

text \<open>
  Documents are modelled as \<^typ>\<open>string\<close>, one \<^typ>\<open>char\<close> per character of the decoded
  text, a \<^typ>\<open>char\<close> being a code point below 256. The character predicates below are
  those of Python's \<open>str\<close> and \<open>re\<close> on that range; a text with a character beyond it is
  outside the model.
\<close>

definition code :: "char \<Rightarrow> nat" where
  "code c = of_char c"

definition between :: "char \<Rightarrow> char \<Rightarrow> char \<Rightarrow> bool" where
  "between lo hi c = (code lo \<le> code c \<and> code c \<le> code hi)"

definition is_digit :: "char \<Rightarrow> bool" where
  "is_digit c = between (CHR ''0'') (CHR ''9'') c"

definition is_upper :: "char \<Rightarrow> bool" where
  "is_upper c = between (CHR ''A'') (CHR ''Z'') c"

definition is_lower :: "char \<Rightarrow> bool" where
  "is_lower c = between (CHR ''a'') (CHR ''z'') c"

text \<open>\<open>str.isspace\<close> and the class \<open>\s\<close>: tab, newline, vertical tab, form feed,
  carriage return, the four separators 28 to 31, the space, the next-line control
  character 133 and the no-break space 160.\<close>

definition is_space :: "char \<Rightarrow> bool" where
  "is_space c =
     ((9 \<le> code c \<and> code c \<le> 13) \<or> (28 \<le> code c \<and> code c \<le> 32) \<or>
      code c = 133 \<or> code c = 160)"

text \<open>The letters and numbers between 128 and 255: the two ordinal indicators, the
  micro sign, the superscripts and fractions, and the accented letters without the
  multiplication and division signs.\<close>

definition is_latin_alnum :: "char \<Rightarrow> bool" where
  "is_latin_alnum c =
     (code c \<in> {170, 178, 179, 181, 185, 186, 188, 189, 190} \<or>
      (192 \<le> code c \<and> code c \<le> 214) \<or> (216 \<le> code c \<and> code c \<le> 246) \<or>
      (248 \<le> code c \<and> code c \<le> 255))"

text \<open>The word characters of \<open>\b\<close>: letters, digits and the underscore.\<close>

definition is_word :: "char \<Rightarrow> bool" where
  "is_word c = (is_digit c \<or> is_upper c \<or> is_lower c \<or> c = CHR ''_'' \<or> is_latin_alnum c)"

text \<open>
  Case is folded for the letters A to Z only. Every letter of the patterns is one of
  them, and no other character below 256 becomes one of them by a change of case, so
  this decides every comparison that \<open>re.IGNORECASE\<close> makes.
\<close>

definition lower :: "char \<Rightarrow> char" where
  "lower c = (if is_upper c then char_of (code c + 32) else c)"

definition upper :: "char \<Rightarrow> char" where
  "upper c = (if is_lower c then char_of (code c - 32) else c)"

text \<open>\<open>content.split('\n')\<close>: a text with k newlines has k + 1 lines.\<close>

fun split_lines :: "string \<Rightarrow> string list" where
  "split_lines [] = [[]]"
| "split_lines (c # cs) =
     (if c = CHR 0x0A then [] # split_lines cs
      else (case split_lines cs of
              [] \<Rightarrow> [[c]]
            | l # ls \<Rightarrow> (c # l) # ls))"

text \<open>\<open>line.strip()\<close>.\<close>

definition strip :: "string \<Rightarrow> string" where
  "strip s = rev (dropWhile is_space (rev (dropWhile is_space s)))"

text \<open>\<open>enumerate(xs, n)\<close>.\<close>

fun enumerate_from :: "int \<Rightarrow> 'a list \<Rightarrow> (int \<times> 'a) list" where
  "enumerate_from n [] = []"
| "enumerate_from n (x # xs) = (n, x) # enumerate_from (n + 1) xs"

text \<open>\<open>str\<close> of an integer, as an f-string renders it.\<close>

definition digit_char :: "nat \<Rightarrow> char" where
  "digit_char d = char_of (48 + d)"

fun str_nat :: "nat \<Rightarrow> string" where
  "str_nat n = (if n < 10 then [digit_char n] else str_nat (n div 10) @ [digit_char (n mod 10)])"

definition str_int :: "int \<Rightarrow> string" where
  "str_int i = (if i < 0 then CHR ''-'' # str_nat (nat (- i)) else str_nat (nat i))"

section \<open>Regular expressions\<close>

text \<open>
  The patterns of the scanner, as syntax trees, and the backtracking matcher of the
  \<open>re\<close> module under \<open>re.IGNORECASE\<close>. A position in the subject is a pair of the text
  before it, reversed, and the text after it. The matcher returns the positions at which
  a match of the expression can end, in the order in which backtracking tries them, so
  that the head of the list is the match that \<open>re\<close> reports.
\<close>

datatype cls_item = Ch char | Range char char | Whitespace | Digit

datatype regex =
    Eps
  | Lit char
  | Cls "cls_item list"
  | Seq regex regex
  | Opt regex
  | Rep nat "nat option" regex
  | Word_boundary

type_synonym pos = "string \<times> string"

fun item_has :: "cls_item \<Rightarrow> char \<Rightarrow> bool" where
  "item_has (Ch a) c = (c = a)"
| "item_has (Range lo hi) c = between lo hi c"
| "item_has Whitespace c = is_space c"
| "item_has Digit c = is_digit c"

text \<open>Ignoring case, a character is in a class when one of its two cases is.\<close>

definition cls_has :: "cls_item list \<Rightarrow> char \<Rightarrow> bool" where
  "cls_has items c =
     (list_ex (\<lambda>it. item_has it (lower c)) items \<or> list_ex (\<lambda>it. item_has it (upper c)) items)"

definition lit_eq :: "char \<Rightarrow> char \<Rightarrow> bool" where
  "lit_eq a c = (lower c = lower a)"

fun step_if :: "(char \<Rightarrow> bool) \<Rightarrow> pos \<Rightarrow> pos list" where
  "step_if p (l, []) = []"
| "step_if p (l, c # cs) = (if p c then [(c # l, cs)] else [])"

fun word_before :: "string \<Rightarrow> bool" where
  "word_before [] = False"
| "word_before (c # cs) = is_word c"

definition at_boundary :: "pos \<Rightarrow> bool" where
  "at_boundary p = (word_before (fst p) \<noteq> word_before (snd p))"

text \<open>
  A greedy repetition of at least \<open>lo\<close> and at most \<open>hi\<close> further rounds: one more
  round is tried first, stopping here comes last.
\<close>

fun rep :: "(pos \<Rightarrow> pos list) \<Rightarrow> nat \<Rightarrow> nat \<Rightarrow> pos \<Rightarrow> pos list" where
  "rep f lo 0 p = (if lo = 0 then [p] else [])"
| "rep f lo (Suc hi) p =
     concat (map (rep f (lo - 1) hi) (f p)) @ (if lo = 0 then [p] else [])"

text \<open>
  An open upper bound is the length of the remaining text: every round of the
  repetitions used here consumes a character, so the bound is never reached.
\<close>

primrec matches :: "regex \<Rightarrow> pos \<Rightarrow> pos list" where
  "matches Eps p = [p]"
| "matches (Lit a) p = step_if (lit_eq a) p"
| "matches (Cls items) p = step_if (cls_has items) p"
| "matches (Seq a b) p = concat (map (matches b) (matches a p))"
| "matches (Opt a) p = matches a p @ [p]"
| "matches (Rep lo hi a) p =
     rep (matches a) lo (case hi of None \<Rightarrow> length (snd p) | Some h \<Rightarrow> h) p"
| "matches Word_boundary p = (if at_boundary p then [p] else [])"

text \<open>
  \<open>re.finditer\<close>: the matched texts from left to right, each search starting where the
  previous match ended.
\<close>

function finditer_from :: "regex \<Rightarrow> pos \<Rightarrow> string list" where
  "finditer_from r (l, s) =
     (case matches r (l, s) of
        [] \<Rightarrow> (case s of [] \<Rightarrow> [] | c # cs \<Rightarrow> finditer_from r (c # l, cs))
      | (l', s') # _ \<Rightarrow>
          take (length s - length s') s #
            (if length s' < length s then finditer_from r (l', s')
             else (case s of [] \<Rightarrow> [] | c # cs \<Rightarrow> finditer_from r (c # l, cs))))"
  by pat_completeness auto
termination
  by (relation "measure (\<lambda>(r, l, s). length s)") auto

definition finditer :: "regex \<Rightarrow> string \<Rightarrow> string list" where
  "finditer r s = finditer_from r ([], s)"

text \<open>\<open>re.search(pattern, text, re.IGNORECASE)\<close> finds a match somewhere in the text.\<close>

definition search :: "regex \<Rightarrow> string \<Rightarrow> bool" where
  "search r s = (finditer r s \<noteq> [])"

fun seqs :: "regex list \<Rightarrow> regex" where
  "seqs [] = Eps"
| "seqs (r # rs) = Seq r (seqs rs)"

definition lits :: "string \<Rightarrow> regex" where
  "lits s = seqs (map Lit s)"

section \<open>The pattern tables\<close>

text \<open>The classes \<open>[A-Za-z0-9._%+-]\<close>, \<open>[A-Za-z0-9.-]\<close>, \<open>[A-Z|a-z]\<close>, \<open>[-.\s]\<close>
  and \<open>[0-9]\<close> of the patterns.\<close>

definition local_part_chars :: "cls_item list" where
  "local_part_chars =
     [Range (CHR ''A'') (CHR ''Z''), Range (CHR ''a'') (CHR ''z''), Range (CHR ''0'') (CHR ''9''),
      Ch (CHR ''.''), Ch (CHR ''_''), Ch (CHR ''%''), Ch (CHR ''+''), Ch (CHR ''-'')]"

definition domain_chars :: "cls_item list" where
  "domain_chars =
     [Range (CHR ''A'') (CHR ''Z''), Range (CHR ''a'') (CHR ''z''), Range (CHR ''0'') (CHR ''9''),
      Ch (CHR ''.''), Ch (CHR ''-'')]"

definition tld_chars :: "cls_item list" where
  "tld_chars = [Range (CHR ''A'') (CHR ''Z''), Ch (CHR ''|''), Range (CHR ''a'') (CHR ''z'')]"

definition sep_chars :: "cls_item list" where
  "sep_chars = [Ch (CHR ''-''), Ch (CHR ''.''), Whitespace]"

definition digit_range :: "cls_item list" where
  "digit_range = [Range (CHR ''0'') (CHR ''9'')]"

text \<open>\<^verbatim>\<open>\b[A-Za-z0-9._%+-]+@[A-Za-z0-9.-]+\.[A-Z|a-z]{2,}\b\<close>\<close>

definition email_pattern :: regex where
  "email_pattern =
     seqs [Word_boundary, Rep 1 None (Cls local_part_chars), Lit (CHR ''@''),
           Rep 1 None (Cls domain_chars), Lit (CHR ''.''), Rep 2 None (Cls tld_chars),
           Word_boundary]"

text \<open>\<^verbatim>\<open>(\+1[-.\s]?)?\(?([0-9]{3})\)?[-.\s]?([0-9]{3})[-.\s]?([0-9]{4})\<close>\<close>

definition us_phone_pattern :: regex where
  "us_phone_pattern =
     seqs [Opt (seqs [Lit (CHR ''+''), Lit (CHR ''1''), Opt (Cls sep_chars)]),
           Opt (Lit (CHR ''('')), Rep 3 (Some 3) (Cls digit_range), Opt (Lit (CHR '')'')),
           Opt (Cls sep_chars), Rep 3 (Some 3) (Cls digit_range),
           Opt (Cls sep_chars), Rep 4 (Some 4) (Cls digit_range)]"

text \<open>\<^verbatim>\<open>\b\d{3}-\d{2}-\d{4}\b\<close>\<close>

definition ssn_pattern :: regex where
  "ssn_pattern =
     seqs [Word_boundary, Rep 3 (Some 3) (Cls [Digit]), Lit (CHR ''-''),
           Rep 2 (Some 2) (Cls [Digit]), Lit (CHR ''-''), Rep 4 (Some 4) (Cls [Digit]),
           Word_boundary]"

text \<open>\<^verbatim>\<open>\b(?:\d{4}[-\s]?){3}\d{4}\b\<close>\<close>

definition credit_card_pattern :: regex where
  "credit_card_pattern =
     seqs [Word_boundary,
           Rep 3 (Some 3)
             (seqs [Rep 4 (Some 4) (Cls [Digit]), Opt (Cls [Ch (CHR ''-''), Whitespace])]),
           Rep 4 (Some 4) (Cls [Digit]), Word_boundary]"

definition PII_PATTERNS :: "(string \<times> regex) list" where
  "PII_PATTERNS =
     [(''email'', email_pattern), (''us_phone'', us_phone_pattern),
      (''ssn'', ssn_pattern), (''credit_card'', credit_card_pattern)]"

text \<open>The allowlist: \<^verbatim>\<open>example@example\.com\<close>, \<^verbatim>\<open>test@test\.com\<close>,
  \<^verbatim>\<open>user@domain\.com\<close>, \<^verbatim>\<open>\+1234567890\<close>, \<^verbatim>\<open>\+1555[0-9]{7}\<close> and
  \<^verbatim>\<open>123-456-7890\<close>.\<close>

definition ALLOWED_PATTERNS :: "regex list" where
  "ALLOWED_PATTERNS =
     [lits ''example@example.com'',
      lits ''test@test.com'',
      lits ''user@domain.com'',
      lits ''+1234567890'',
      Seq (lits ''+1555'') (Rep 7 (Some 7) (Cls digit_range)),
      lits ''123-456-7890'']"

definition is_allowed_pattern :: "string \<Rightarrow> bool" where
  "is_allowed_pattern text = list_ex (\<lambda>pattern. search pattern text) ALLOWED_PATTERNS"

section \<open>Scanning a document\<close>

record violation =
  v_file :: string
  v_line :: int
  v_type :: string
  v_text :: string
  v_context :: string

text \<open>What the program prints, one constructor for each kind of message.\<close>

datatype message =
    Scanning_banner
  | Found_files nat
  | Error_scanning string
  | Total_patterns nat
  | Listed bool violation
  | Failure_header nat
  | New_violation violation
  | To_fix
  | All_grandfathered nat
  | No_pii_detected
  | Updated_baseline

text \<open>The matches of one pattern in one line that the allowlist does not cover.\<close>

definition pattern_violations :: "string \<Rightarrow> int \<Rightarrow> string \<Rightarrow> string \<times> regex \<Rightarrow> violation list" where
  "pattern_violations file_path line_num line entry =
     map (\<lambda>matched_text.
            \<lparr>v_file = file_path, v_line = line_num, v_type = fst entry,
             v_text = matched_text, v_context = take 100 (strip line)\<rparr>)
         (filter (\<lambda>matched_text. \<not> is_allowed_pattern matched_text)
                 (finditer (snd entry) line))"

definition line_violations :: "string \<Rightarrow> int \<times> string \<Rightarrow> violation list" where
  "line_violations file_path numbered =
     concat (map (pattern_violations file_path (fst numbered) (snd numbered)) PII_PATTERNS)"

text \<open>
  \<open>scan_file\<close> gets the path as a string and what reading the file gives: \<open>None\<close> when
  opening, reading or decoding raises, which the \<open>except\<close> clause catches and prints.
\<close>

definition scan_file :: "string \<times> string option \<Rightarrow> violation list \<times> message list" where
  "scan_file doc =
     (case snd doc of
        None \<Rightarrow> ([], [Error_scanning (fst doc)])
      | Some content \<Rightarrow>
          (concat (map (line_violations (fst doc)) (enumerate_from 1 (split_lines content))), []))"

section \<open>Document discovery\<close>

text \<open>
  A directory holds its files, each with what reading it as UTF-8 text gives, and its
  subdirectories, in the order in which \<open>os.walk\<close> lists them.
\<close>

datatype dir = Dir "(string \<times> string option) list" "(string \<times> dir) list"

definition startswith :: "string \<Rightarrow> string \<Rightarrow> bool" where
  "startswith s pre = (take (length pre) s = pre)"

definition endswith :: "string \<Rightarrow> string \<Rightarrow> bool" where
  "endswith s suf = (length suf \<le> length s \<and> drop (length s - length suf) s = suf)"

text \<open>The filter of \<open>dirs[:]\<close>: the subdirectories that the walk descends into.\<close>

definition descends :: "string \<Rightarrow> bool" where
  "descends d = (\<not> startswith d ''.'' \<and> d \<noteq> ''node_modules'')"

text \<open>
  \<open>os.walk\<close> from the top down: the markdown files of a directory, then those of each
  subdirectory that is left in \<open>dirs\<close>. A path is the list of its components below the
  starting directory.
\<close>

fun walk :: "string list \<Rightarrow> dir \<Rightarrow> (string list \<times> string option) list" where
  "walk root (Dir files dirs) =
     map (\<lambda>f. (root @ [fst f], snd f)) (filter (\<lambda>f. endswith (fst f) ''.md'') files) @
     concat (map (\<lambda>d. walk (root @ [fst d]) (snd d)) (filter (\<lambda>d. descends (fst d)) dirs))"

text \<open>\<open>str(Path(root) / file)\<close>: the components joined by a slash.\<close>

fun str_path :: "string list \<Rightarrow> string" where
  "str_path [] = ''.''"
| "str_path [x] = x"
| "str_path (x # y # ys) = x @ ''/'' @ str_path (y # ys)"

definition find_md_files :: "dir \<Rightarrow> (string \<times> string option) list" where
  "find_md_files start = map (\<lambda>f. (str_path (fst f), snd f)) (walk [] start)"

text \<open>The loop over \<open>md_files\<close> that extends \<open>all_violations\<close>.\<close>

fun scan_all :: "(string \<times> string option) list \<Rightarrow> violation list \<times> message list" where
  "scan_all [] = ([], [])"
| "scan_all (doc # docs) =
     (fst (scan_file doc) @ fst (scan_all docs), snd (scan_file doc) @ snd (scan_all docs))"

section \<open>The baseline\<close>

text \<open>
  What \<open>json.load\<close> returns, as far as \<open>main\<close> looks at it. The value is an array, or
  an empty object or empty string (iterating over either gives nothing), or another
  value: a number, a boolean or \<open>null\<close>, which cannot be iterated over, or an object or
  string that is not empty, whose keys or characters are strings. An element of the
  array is an object or something else. The members of an object are strings, whole
  numbers, booleans and \<open>null\<close>; an object with a fraction, an array or an object as a
  member is outside the model (the f-string renders such a member without an error as
  well).
\<close>

datatype scalar = Null | Boolean bool | Number int | String string

datatype element = Object "(string \<times> scalar) list" | Not_object

datatype json = Array "element list" | Empty_container | Other_json

text \<open>
  The baseline file is absent, or it exists and cannot be opened, or it holds text that
  \<open>json.load\<close> rejects, or it holds JSON.
\<close>

datatype baseline_file = Absent | Unreadable | Malformed | Parsed json

text \<open>
  The file system: the documents, the baseline file, and whether the baseline file can
  be opened for writing (the directory \<open>.github\<close> exists and the file may be written).
\<close>

record filesystem =
  tree :: dir
  baseline_json :: baseline_file
  baseline_writable :: bool

datatype error = OSError | JSONDecodeError | TypeError | KeyError

definition load_baseline :: "filesystem \<Rightarrow> error + json" where
  "load_baseline fs =
     (case baseline_json fs of
        Absent \<Rightarrow> Inr (Array [])
      | Unreadable \<Rightarrow> Inl OSError
      | Malformed \<Rightarrow> Inl JSONDecodeError
      | Parsed data \<Rightarrow> Inr data)"

text \<open>\<open>json.dump\<close> of a finding, and the file that holds a list of findings.\<close>

definition to_json :: "violation \<Rightarrow> element" where
  "to_json v =
     Object [(''file'', String (v_file v)), (''line'', Number (v_line v)),
             (''type'', String (v_type v)), (''text'', String (v_text v)),
             (''context'', String (v_context v))]"

definition Stored :: "violation list \<Rightarrow> baseline_file" where
  "Stored violations = Parsed (Array (map to_json violations))"

text \<open>\<open>save_baseline\<close> opens the file for writing, which raises when it cannot be
  written, and replaces its content.\<close>

definition save_baseline :: "violation list \<Rightarrow> filesystem \<Rightarrow> error + filesystem" where
  "save_baseline violations fs =
     (if baseline_writable fs then Inr (fs\<lparr>baseline_json := Stored violations\<rparr>)
      else Inl OSError)"

text \<open>A step that may raise, followed by the rest of the computation.\<close>

definition and_then :: "error + 'a \<Rightarrow> ('a \<Rightarrow> error + 'b) \<Rightarrow> error + 'b" where
  "and_then r k = (case r of Inl e \<Rightarrow> Inl e | Inr x \<Rightarrow> k x)"

text \<open>\<open>v[key]\<close> on a parsed object, in which the last of several members with the same
  name counts; \<open>str\<close> of a member, as the f-string renders it.\<close>

definition subscript :: "(string \<times> scalar) list \<Rightarrow> string \<Rightarrow> error + scalar" where
  "subscript members key =
     (case map_of (rev members) key of None \<Rightarrow> Inl KeyError | Some x \<Rightarrow> Inr x)"

fun py_str :: "scalar \<Rightarrow> string" where
  "py_str Null = ''None''"
| "py_str (Boolean b) = (if b then ''True'' else ''False'')"
| "py_str (Number n) = str_int n"
| "py_str (String s) = s"

text \<open>The f-string \<open>{v['file']}:{v['line']}:{v['type']}:{v['text']}\<close> on an element of
  the baseline, its four subscripts evaluated from left to right.\<close>

fun entry_signature :: "element \<Rightarrow> error + string" where
  "entry_signature Not_object = Inl TypeError"
| "entry_signature (Object members) =
     and_then (subscript members ''file'') (\<lambda>f.
     and_then (subscript members ''line'') (\<lambda>l.
     and_then (subscript members ''type'') (\<lambda>t.
     and_then (subscript members ''text'') (\<lambda>x.
       Inr (py_str f @ '':'' @ py_str l @ '':'' @ py_str t @ '':'' @ py_str x)))))"

text \<open>The set comprehension \<open>baseline_signatures\<close>, which stops at the first element that
  raises.\<close>

fun entry_signatures :: "element list \<Rightarrow> error + string list" where
  "entry_signatures [] = Inr []"
| "entry_signatures (v # vs) =
     and_then (entry_signature v) (\<lambda>s.
     and_then (entry_signatures vs) (\<lambda>ss. Inr (s # ss)))"

fun signatures_of :: "json \<Rightarrow> error + string list" where
  "signatures_of (Array elements) = entry_signatures elements"
| "signatures_of Empty_container = Inr []"
| "signatures_of Other_json = Inl TypeError"

text \<open>The same f-string on a finding of the scan.\<close>

definition signature :: "violation \<Rightarrow> string" where
  "signature v = v_file v @ '':'' @ str_int (v_line v) @ '':'' @ v_type v @ '':'' @ v_text v"

definition new_violations_of :: "violation list \<Rightarrow> string list \<Rightarrow> violation list" where
  "new_violations_of all_violations baseline_signatures =
     filter (\<lambda>violation. signature violation \<notin> set baseline_signatures) all_violations"

section \<open>The gate\<close>

text \<open>
  A run ends by \<open>sys.exit\<close>, by reaching the end of \<open>main\<close> (status 0), or by an
  exception that nothing catches, for which the interpreter prints the traceback and
  ends the process with status 1.
\<close>

datatype outcome = Exit int | Uncaught error

fun exit_code :: "outcome \<Rightarrow> int" where
  "exit_code (Exit n) = n"
| "exit_code (Uncaught e) = 1"

record run =
  printed :: "message list"
  outcome :: outcome
  fs_after :: filesystem

definition all_violations_of :: "filesystem \<Rightarrow> violation list" where
  "all_violations_of fs = fst (scan_all (find_md_files (tree fs)))"

text \<open>Loading the baseline and building its signatures, the two steps of \<open>main\<close> between
  the scan and the report.\<close>

definition baseline_signatures :: "filesystem \<Rightarrow> error + string list" where
  "baseline_signatures fs = and_then (load_baseline fs) signatures_of"

definition listing :: "violation list \<Rightarrow> violation list \<Rightarrow> message list" where
  "listing all_violations new_violations =
     (if all_violations \<noteq> []
      then Total_patterns (length all_violations) #
           map (\<lambda>violation. Listed (violation \<in> set new_violations) violation) all_violations
      else [])"

definition main :: "filesystem \<Rightarrow> string list \<Rightarrow> run" where
  "main fs argv =
     (let md_files = find_md_files (tree fs);
          all_violations = fst (scan_all md_files);
          progress = [Scanning_banner, Found_files (length md_files)] @ snd (scan_all md_files)
      in case and_then (load_baseline fs) signatures_of of
           Inl e \<Rightarrow> \<lparr>printed = progress, outcome = Uncaught e, fs_after = fs\<rparr>
         | Inr signatures \<Rightarrow>
             (let new_violations = new_violations_of all_violations signatures;
                  report = progress @ listing all_violations new_violations
              in if new_violations \<noteq> []
                 then \<lparr>printed = report @ [Failure_header (length new_violations)] @
                                 map New_violation new_violations @ [To_fix],
                       outcome = Exit 1, fs_after = fs\<rparr>
                 else (let summary = report @
                             [if all_violations \<noteq> []
                              then All_grandfathered (length all_violations)
                              else No_pii_detected]
                       in if ''--update-baseline'' \<in> set argv
                          then (case save_baseline all_violations fs of
                                  Inl e \<Rightarrow>
                                    \<lparr>printed = summary, outcome = Uncaught e, fs_after = fs\<rparr>
                                | Inr written \<Rightarrow>
                                    \<lparr>printed = summary @ [Updated_baseline], outcome = Exit 0,
                                     fs_after = written\<rparr>)
                          else \<lparr>printed = summary, outcome = Exit 0, fs_after = fs\<rparr>)))"

section \<open>Notions used by the properties\<close>

text \<open>The tuple that identifies a finding.\<close>

definition identifying :: "violation \<Rightarrow> string \<times> int \<times> string \<times> string" where
  "identifying v = (v_file v, v_line v, v_type v, v_text v)"

text \<open>
  A directory tree as a file system holds it: no name has a slash, and the files of a
  directory have different names, as its subdirectories have.
\<close>

fun valid_tree :: "dir \<Rightarrow> bool" where
  "valid_tree (Dir files dirs) =
     (distinct (map fst files) \<and> distinct (map fst dirs) \<and>
      (\<forall>f \<in> set files. CHR ''/'' \<notin> set (fst f)) \<and>
      (\<forall>d \<in> set dirs. CHR ''/'' \<notin> set (fst d) \<and> valid_tree (snd d)))"

text \<open>The progress lines, as opposed to the messages that report the gate's decision.\<close>

fun is_progress :: "message \<Rightarrow> bool" where
  "is_progress Scanning_banner = True"
| "is_progress (Found_files n) = True"
| "is_progress (Error_scanning f) = True"
| "is_progress m = False"

section \<open>Example inputs\<close>

definition newline :: string where
  "newline = [CHR 0x0A]"

definition script_args :: "string list" where
  "script_args = [''.github/scripts/pii-scanner.py'']"

definition update_args :: "string list" where
  "update_args = [''.github/scripts/pii-scanner.py'', ''--update-baseline'']"

text \<open>A finding of the address \<open>jane.doe@example.org\<close> in a line that names it.\<close>

definition jane_at :: "string \<Rightarrow> int \<Rightarrow> violation" where
  "jane_at file_name n =
     \<lparr>v_file = file_name, v_line = n, v_type = ''email'',
      v_text = ''jane.doe@example.org'', v_context = ''Contact: jane.doe@example.org''\<rparr>"

text \<open>The document of the example scenario: line 3 has an address, line 5 a number,
  the other lines are empty.\<close>

definition scenario_doc :: string where
  "scenario_doc =
     newline @ newline @ ''Contact: jane.doe@example.org'' @ newline @ newline @
     ''Call +1234567890''"

definition scenario_fs :: filesystem where
  "scenario_fs =
     \<lparr>tree = Dir [] [(''docs'', Dir [(''a.md'', Some scenario_doc)] [])],
      baseline_json = Absent, baseline_writable = True\<rparr>"

definition fake_phone :: violation where
  "fake_phone =
     \<lparr>v_file = ''docs/a.md'', v_line = 5, v_type = ''us_phone'',
      v_text = ''1234567890'', v_context = ''Call +1234567890''\<rparr>"

text \<open>One document with one address, and no baseline yet.\<close>

definition contact_fs :: filesystem where
  "contact_fs =
     \<lparr>tree = Dir [(''CONTACT.md'', Some ''Contact: jane.doe@example.org'')] [],
      baseline_json = Absent, baseline_writable = True\<rparr>"

text \<open>No document at all, and a baseline file that is not JSON.\<close>

definition broken_fs :: filesystem where
  "broken_fs = \<lparr>tree = Dir [] [], baseline_json = Malformed, baseline_writable = True\<rparr>"

text \<open>A line that names the same address twice.\<close>

definition twice_fs :: filesystem where
  "twice_fs =
     \<lparr>tree = Dir [(''team.md'', Some ''x@y.io x@y.io'')] [], baseline_json = Absent, baseline_writable = True\<rparr>"

definition xy_at :: "string \<Rightarrow> violation" where
  "xy_at file_name =
     \<lparr>v_file = file_name, v_line = 1, v_type = ''email'',
      v_text = ''x@y.io'', v_context = ''x@y.io x@y.io''\<rparr>"

text \<open>A document with an allowlisted address and one that is not, the latter in the
  baseline.\<close>

definition fixture_fs :: filesystem where
  "fixture_fs =
     \<lparr>tree = Dir [(''guide.md'',
                   Some (''write to example@example.com'' @ newline @
                         ''Contact: jane.doe@example.org''))] [],
      baseline_json = Stored [jane_at ''guide.md'' 2], baseline_writable = True\<rparr>"

text \<open>The same, with a baseline file that cannot be written.\<close>

definition readonly_fs :: filesystem where
  "readonly_fs = fixture_fs\<lparr>baseline_writable := False\<rparr>"

text \<open>No document, and a baseline whose only entry has no line.\<close>

definition partial_fs :: filesystem where
  "partial_fs =
     \<lparr>tree = Dir [] [],
      baseline_json =
        Parsed (Array [Object [(''file'', String ''a.md''), (''type'', String ''email''),
                               (''text'', String ''x@y.io'')]]),
      baseline_writable = True\<rparr>"

text \<open>An unreadable document between two readable ones.\<close>

definition mixed_fs :: filesystem where
  "mixed_fs =
     \<lparr>tree = Dir [(''a.md'', Some ''x@y.io x@y.io''), (''b.md'', None),
                  (''c.md'', Some ''Contact: jane.doe@example.org'')] [],
      baseline_json = Absent, baseline_writable = True\<rparr>"

text \<open>Markdown files under hidden and dependency directories, and two that are found.\<close>

definition vendor_dir :: dir where
  "vendor_dir = Dir [(''README.md'', Some ''x@y.io x@y.io'')] [(''lib'', Dir [(''x.md'', None)] [])]"

definition git_dir :: dir where
  "git_dir = Dir [(''HEAD.md'', Some ''Contact: jane.doe@example.org'')] []"

definition repo_tree :: dir where
  "repo_tree =
     Dir [(''README.md'', Some ''hello''), (''LICENSE'', Some ''free'')]
         [(''.git'', git_dir),
          (''docs'', Dir [(''a.md'', Some scenario_doc)] [(''node_modules'', vendor_dir)])]"

text \<open>A file whose name has colons, and a baseline entry with colons in its text.\<close>

definition colon_entry :: violation where
  "colon_entry =
     \<lparr>v_file = ''docs'', v_line = 7, v_type = ''email'',
      v_text = ''x.md:3:email:jane.doe@example.org'', v_context = ''seen before''\<rparr>"

definition colon_fs :: filesystem where
  "colon_fs =
     \<lparr>tree = Dir [(''docs:7:email:x.md'',
                   Some (newline @ newline @ ''Contact: jane.doe@example.org''))] [],
      baseline_json = Stored [colon_entry], baseline_writable = True\<rparr>"

section \<open>Evaluation rules\<close>

text \<open>
  The character predicates on the eight bits of a character, the repetition on a
  numeral, and the decimal digits: with these the simplifier runs the matcher on a
  concrete line.
\<close>

lemmas char_defs = code_def between_def is_digit_def is_upper_def is_lower_def is_space_def

lemma is_digit_bits:
  "is_digit (Char b0 b1 b2 b3 b4 b5 b6 b7) =
     (b4 \<and> b5 \<and> \<not> b6 \<and> \<not> b7 \<and> (\<not> b3 \<or> (\<not> b2 \<and> \<not> b1)))"
  by (cases b0; cases b1; cases b2; cases b3; cases b4; cases b5; cases b6; cases b7)
     (simp_all add: char_defs)

lemma is_upper_bits:
  "is_upper (Char b0 b1 b2 b3 b4 b5 b6 b7) =
     (\<not> b7 \<and> b6 \<and> \<not> b5 \<and> (b0 \<or> b1 \<or> b2 \<or> b3 \<or> b4) \<and> \<not> (b4 \<and> b3 \<and> (b2 \<or> (b1 \<and> b0))))"
  by (cases b0; cases b1; cases b2; cases b3; cases b4; cases b5; cases b6; cases b7)
     (simp_all add: char_defs)

lemma is_lower_bits:
  "is_lower (Char b0 b1 b2 b3 b4 b5 b6 b7) =
     (\<not> b7 \<and> b6 \<and> b5 \<and> (b0 \<or> b1 \<or> b2 \<or> b3 \<or> b4) \<and> \<not> (b4 \<and> b3 \<and> (b2 \<or> (b1 \<and> b0))))"
  by (cases b0; cases b1; cases b2; cases b3; cases b4; cases b5; cases b6; cases b7)
     (simp_all add: char_defs)

lemma is_space_bits:
  "is_space (Char b0 b1 b2 b3 b4 b5 b6 b7) =
     ((\<not> b7 \<and> \<not> b6 \<and>
       ((b5 \<and> \<not> b4 \<and> \<not> b3 \<and> \<not> b2 \<and> \<not> b1 \<and> \<not> b0) \<or>
        (\<not> b5 \<and> b4 \<and> b3 \<and> b2) \<or>
        (\<not> b5 \<and> \<not> b4 \<and> b3 \<and> ((\<not> b2 \<and> (b1 \<or> b0)) \<or> (b2 \<and> \<not> b1))))) \<or>
      (b7 \<and> \<not> b6 \<and> \<not> b4 \<and> \<not> b3 \<and> \<not> b1 \<and>
       ((\<not> b5 \<and> b2 \<and> b0) \<or> (b5 \<and> \<not> b2 \<and> \<not> b0))))"
  by (cases b0; cases b1; cases b2; cases b3; cases b4; cases b5; cases b6; cases b7)
     (simp_all add: char_defs)

lemma is_latin_alnum_ascii:
  "is_latin_alnum (Char b0 b1 b2 b3 b4 b5 b6 False) = False"
  by (cases b0; cases b1; cases b2; cases b3; cases b4; cases b5; cases b6)
     (simp_all add: is_latin_alnum_def code_def)

lemma lower_bits:
  "lower (Char b0 b1 b2 b3 b4 b5 b6 b7) =
     (if is_upper (Char b0 b1 b2 b3 b4 b5 b6 b7) then Char b0 b1 b2 b3 b4 True b6 b7
      else Char b0 b1 b2 b3 b4 b5 b6 b7)"
  by (cases b0; cases b1; cases b2; cases b3; cases b4; cases b5; cases b6; cases b7)
     (simp_all add: lower_def char_defs char_of_eq_iff)

lemma upper_bits:
  "upper (Char b0 b1 b2 b3 b4 b5 b6 b7) =
     (if is_lower (Char b0 b1 b2 b3 b4 b5 b6 b7) then Char b0 b1 b2 b3 b4 False b6 b7
      else Char b0 b1 b2 b3 b4 b5 b6 b7)"
  by (cases b0; cases b1; cases b2; cases b3; cases b4; cases b5; cases b6; cases b7)
     (simp_all add: upper_def char_defs char_of_eq_iff)

lemma rep_numeral:
  "rep f lo (numeral k) p =
     concat (map (rep f (lo - 1) (pred_numeral k)) (f p)) @ (if lo = 0 then [p] else [])"
  by (simp add: numeral_eq_Suc)

lemma between_digits: "between (CHR ''0'') (CHR ''9'') c = is_digit c"
  by (simp add: is_digit_def)

lemma between_capitals: "between (CHR ''A'') (CHR ''Z'') c = is_upper c"
  by (simp add: is_upper_def)

lemma between_smalls: "between (CHR ''a'') (CHR ''z'') c = is_lower c"
  by (simp add: is_lower_def)

lemmas char_eval = is_digit_bits is_upper_bits is_lower_bits is_space_bits lower_bits upper_bits
  between_digits between_capitals between_smalls is_word_def is_latin_alnum_ascii

lemmas regex_eval = finditer_def search_def cls_has_def lit_eq_def at_boundary_def lits_def
  local_part_chars_def domain_chars_def tld_chars_def sep_chars_def digit_range_def
  email_pattern_def us_phone_pattern_def ssn_pattern_def credit_card_pattern_def
  is_allowed_pattern_def ALLOWED_PATTERNS_def rep_numeral

lemmas scan_eval = line_violations_def pattern_violations_def PII_PATTERNS_def strip_def


lemma digit_chars:
  "digit_char 0 = CHR ''0''" "digit_char 1 = CHR ''1''" "digit_char 2 = CHR ''2''"
  "digit_char 3 = CHR ''3''" "digit_char 4 = CHR ''4''" "digit_char 5 = CHR ''5''"
  "digit_char 6 = CHR ''6''" "digit_char 7 = CHR ''7''" "digit_char 8 = CHR ''8''"
  "digit_char 9 = CHR ''9''"
  by (simp_all add: digit_char_def char_of_eq_iff)

lemma empty_line_violations: "line_violations f (n, []) = []"
  by (simp add: scan_eval regex_eval char_eval)

lemma contact_line_violations:
  "line_violations f (n, ''Contact: jane.doe@example.org'') = [jane_at f n]"
  by (simp add: scan_eval regex_eval char_eval jane_at_def)

lemma phone_line_violations:
  "line_violations f (n, ''Call +1234567890'') =
     [\<lparr>v_file = f, v_line = n, v_type = ''us_phone'', v_text = ''1234567890'',
       v_context = ''Call +1234567890''\<rparr>]"
  by (simp add: scan_eval regex_eval char_eval)

lemma twice_line_violations:
  "line_violations f (1, ''x@y.io x@y.io'') = [xy_at f, xy_at f]"
  by (simp add: scan_eval regex_eval char_eval xy_at_def)

lemma fixture_line_violations:
  "line_violations f (n, ''write to example@example.com'') = []"
  by (simp add: scan_eval regex_eval char_eval)

lemma fixture_candidate:
  "finditer email_pattern ''write to example@example.com'' = [''example@example.com'']"
  by (simp add: regex_eval char_eval)

lemma fixture_allowed: "is_allowed_pattern ''example@example.com''"
  by (simp add: regex_eval char_eval)

lemma phone_candidate: "finditer us_phone_pattern ''Call +1234567890'' = [''1234567890'']"
  by (simp add: regex_eval char_eval)

lemma phone_not_allowed: "\<not> is_allowed_pattern ''1234567890''"
  by (simp add: regex_eval char_eval)

lemmas line_eval = empty_line_violations contact_line_violations phone_line_violations
  twice_line_violations fixture_line_violations

lemmas fs_eval = all_violations_of_def find_md_files_def scan_file_def newline_def
  endswith_def startswith_def descends_def

section \<open>The example inputs, scanned\<close>

lemma scenario_violations: "all_violations_of scenario_fs = [jane_at ''docs/a.md'' 3, fake_phone]"
  by (simp add: fs_eval line_eval scenario_fs_def scenario_doc_def fake_phone_def)

lemma contact_violations: "all_violations_of contact_fs = [jane_at ''CONTACT.md'' 1]"
  by (simp add: fs_eval line_eval contact_fs_def)

lemma twice_violations: "all_violations_of twice_fs = [xy_at ''team.md'', xy_at ''team.md'']"
  by (simp add: fs_eval line_eval twice_fs_def)

lemma fixture_violations: "all_violations_of fixture_fs = [jane_at ''guide.md'' 2]"
  by (simp add: fs_eval line_eval fixture_fs_def)

lemma colon_violations: "all_violations_of colon_fs = [jane_at ''docs:7:email:x.md'' 3]"
  by (simp add: fs_eval line_eval colon_fs_def)

lemma colon_signatures: "signature (jane_at ''docs:7:email:x.md'' 3) = signature colon_entry"
  by (simp add: signature_def jane_at_def colon_entry_def str_int_def digit_chars)

lemma repo_walk:
  "walk [] repo_tree = [([''README.md''], Some ''hello''), ([''docs'', ''a.md''], Some scenario_doc)]"
  by (simp add: repo_tree_def fs_eval)


lemma mixed_docs:
  "find_md_files (tree mixed_fs) =
     [(''a.md'', Some ''x@y.io x@y.io'')] @ (''b.md'', None) #
     [(''c.md'', Some ''Contact: jane.doe@example.org'')]"
  by (simp add: mixed_fs_def fs_eval)

lemma mixed_scans:
  "scan_file (''a.md'', Some ''x@y.io x@y.io'') = ([xy_at ''a.md'', xy_at ''a.md''], [])"
  "scan_file (''c.md'', Some ''Contact: jane.doe@example.org'') = ([jane_at ''c.md'' 1], [])"
  by (simp_all add: scan_file_def line_eval)

section \<open>Scanning and the gate\<close>

lemma scan_all_append:
  "scan_all (xs @ ys) = (fst (scan_all xs) @ fst (scan_all ys), snd (scan_all xs) @ snd (scan_all ys))"
  by (induction xs) simp_all

lemma fst_scan_all: "fst (scan_all docs) = concat (map (\<lambda>d. fst (scan_file d)) docs)"
  by (induction docs) simp_all

lemma scan_file_unreadable: "scan_file (p, None) = ([], [Error_scanning p])"
  by (simp add: scan_file_def)

lemma snd_scan_all_progress: "m \<in> set (snd (scan_all docs)) \<Longrightarrow> is_progress m"
  by (induction docs) (auto simp: scan_file_def split: option.splits)

lemma new_violations_of_self: "new_violations_of vs (map signature vs) = []"
  by (simp add: new_violations_of_def filter_empty_conv)

lemma new_violations_subset: "set (new_violations_of vs sigs) \<subseteq> set vs"
  by (auto simp: new_violations_of_def)

lemma entry_signature_to_json: "entry_signature (to_json v) = Inr (signature v)"
  by (simp add: to_json_def and_then_def subscript_def signature_def)

lemma entry_signatures_to_json: "entry_signatures (map to_json vs) = Inr (map signature vs)"
  by (induction vs) (simp_all add: entry_signature_to_json and_then_def)

lemma baseline_signatures_stored:
  "baseline_json fs = Stored vs \<Longrightarrow> baseline_signatures fs = Inr (map signature vs)"
  by (simp add: baseline_signatures_def load_baseline_def Stored_def and_then_def
      entry_signatures_to_json)

lemma baseline_signatures_absent:
  "baseline_json fs = Absent \<Longrightarrow> baseline_signatures fs = Inr []"
  by (simp add: baseline_signatures_def load_baseline_def and_then_def)

lemma baseline_signatures_tree [simp]:
  "baseline_signatures (fs\<lparr>tree := t\<rparr>) = baseline_signatures fs"
  by (simp add: baseline_signatures_def load_baseline_def)

lemma save_baseline_result:
  "save_baseline vs fs = Inr written \<longleftrightarrow>
     baseline_writable fs \<and> written = fs\<lparr>baseline_json := Stored vs\<rparr>"
  by (auto simp: save_baseline_def)

lemma outcome_main:
  "outcome (main fs argv) =
     (case baseline_signatures fs of
        Inl e \<Rightarrow> Uncaught e
      | Inr sigs \<Rightarrow>
          if new_violations_of (all_violations_of fs) sigs \<noteq> [] then Exit 1
          else if ''--update-baseline'' \<in> set argv \<and> \<not> baseline_writable fs
               then Uncaught OSError
               else Exit 0)"
  by (simp add: main_def baseline_signatures_def all_violations_of_def save_baseline_def Let_def
      split: sum.splits)

lemma outcome_main_loaded:
  assumes "baseline_signatures fs = Inr sigs"
  shows "outcome (main fs argv) =
           (if new_violations_of (all_violations_of fs) sigs \<noteq> [] then Exit 1
            else if ''--update-baseline'' \<in> set argv \<and> \<not> baseline_writable fs
                 then Uncaught OSError
                 else Exit 0)"
  by (simp add: outcome_main assms)

lemma main_without_signatures:
  assumes "baseline_signatures fs = Inl e"
  shows "main fs argv =
           \<lparr>printed = [Scanning_banner, Found_files (length (find_md_files (tree fs)))] @
                       snd (scan_all (find_md_files (tree fs))),
            outcome = Uncaught e, fs_after = fs\<rparr>"
  using assms by (simp add: main_def baseline_signatures_def Let_def)

lemma progress_without_signatures:
  assumes "baseline_signatures fs = Inl e"
  shows "list_all is_progress (printed (main fs argv))"
  by (auto simp: main_without_signatures [OF assms] list_all_iff dest: snd_scan_all_progress)

lemma listed_status:
  assumes "baseline_signatures fs = Inr sigs"
  shows "Listed b v \<in> set (printed (main fs argv)) \<longleftrightarrow>
           v \<in> set (all_violations_of fs) \<and>
           b = (v \<in> set (new_violations_of (all_violations_of fs) sigs))"
  using assms unfolding baseline_signatures_def
  by (auto simp: main_def Let_def listing_def all_violations_of_def save_baseline_def
      dest: snd_scan_all_progress)

lemma main_failure:
  assumes "baseline_signatures fs = Inr sigs"
    and "new_violations_of (all_violations_of fs) sigs \<noteq> []"
  shows "fs_after (main fs argv) = fs" and "Updated_baseline \<notin> set (printed (main fs argv))"
  using assms unfolding baseline_signatures_def
  by (auto simp: main_def Let_def listing_def all_violations_of_def dest: snd_scan_all_progress)

lemma pattern_violations_texts:
  "map v_text (pattern_violations file n line entry) =
     filter (\<lambda>t. \<not> is_allowed_pattern t) (finditer (snd entry) line)"
  by (simp add: pattern_violations_def comp_def)

lemma scan_file_not_allowed:
  "v \<in> set (fst (scan_file doc)) \<Longrightarrow> \<not> is_allowed_pattern (v_text v)"
  by (auto simp: scan_file_def line_violations_def pattern_violations_def split: option.splits)

lemma all_violations_not_allowed:
  "v \<in> set (all_violations_of fs) \<Longrightarrow> \<not> is_allowed_pattern (v_text v)"
  by (auto simp: all_violations_of_def fst_scan_all dest: scan_file_not_allowed)

lemma listed_in_main:
  assumes "Listed b v \<in> set (printed (main fs argv))"
  shows "v \<in> set (all_violations_of fs)"
proof (cases "baseline_signatures fs")
  case (Inl e)
  with assms have "Listed b v \<in> set (snd (scan_all (find_md_files (tree fs))))"
    by (simp add: main_without_signatures)
  then show ?thesis by (auto dest: snd_scan_all_progress)
next
  case (Inr sigs)
  with assms show ?thesis by (simp add: listed_status)
qed

lemma new_violation_in_main:
  assumes "New_violation v \<in> set (printed (main fs argv))"
  shows "v \<in> set (all_violations_of fs)"
proof (cases "baseline_signatures fs")
  case (Inl e)
  with assms have "New_violation v \<in> set (snd (scan_all (find_md_files (tree fs))))"
    by (simp add: main_without_signatures)
  then show ?thesis by (auto dest: snd_scan_all_progress)
next
  case (Inr sigs)
  with assms new_violations_subset [of "all_violations_of fs" sigs] show ?thesis
    unfolding baseline_signatures_def
    by (auto simp: main_def Let_def listing_def all_violations_of_def save_baseline_def
        split: if_splits dest: snd_scan_all_progress)
qed

lemma updated_baseline:
  assumes "''--update-baseline'' \<in> set argv" and "outcome (main fs argv) = Exit 0"
  shows "baseline_json (fs_after (main fs argv)) = Stored (all_violations_of fs)"
proof (cases "baseline_signatures fs")
  case (Inl e)
  with assms show ?thesis by (simp add: main_without_signatures)
next
  case (Inr sigs)
  with assms show ?thesis
    unfolding baseline_signatures_def
    by (simp add: main_def Let_def all_violations_of_def save_baseline_def split: if_splits)
qed

text \<open>An unreadable file of the top directory: the scan and the end of the run are those
  of the tree without it.\<close>

lemma unreadable_top_file_violations:
  "all_violations_of (fs\<lparr>tree := Dir (files1 @ (name, None) # files2) dirs\<rparr>) =
   all_violations_of (fs\<lparr>tree := Dir (files1 @ files2) dirs\<rparr>)"
  by (simp add: all_violations_of_def find_md_files_def fst_scan_all scan_file_def)

lemma unreadable_top_file_outcome:
  "outcome (main (fs\<lparr>tree := Dir (files1 @ (name, None) # files2) dirs\<rparr>) argv) =
   outcome (main (fs\<lparr>tree := Dir (files1 @ files2) dirs\<rparr>) argv)"
  unfolding outcome_main unreadable_top_file_violations by auto

section \<open>Discovery\<close>

lemma walk_paths:
  "(p, c) \<in> set (walk root t) \<Longrightarrow>
     \<exists>q. p = root @ q \<and> q \<noteq> [] \<and> (\<forall>d \<in> set (butlast q). descends d)"
proof (induction root t arbitrary: p c rule: walk.induct)
  case (1 root files dirs)
  from "1.prems" consider
      (here) f where "f \<in> set files" "p = root @ [fst f]"
    | (below) d where "d \<in> set dirs" "descends (fst d)" "(p, c) \<in> set (walk (root @ [fst d]) (snd d))"
    by auto
  then show ?case
  proof cases
    case here
    then show ?thesis by simp
  next
    case below
    with "1.IH" [of d p c] obtain q where q: "p = (root @ [fst d]) @ q" "q \<noteq> []"
      "\<forall>x \<in> set (butlast q). descends x"
      by auto
    with below(2) have "p = root @ (fst d # q) \<and> fst d # q \<noteq> [] \<and> (\<forall>x \<in> set (butlast (fst d # q)). descends x)"
      by simp
    then show ?thesis by blast
  qed
qed

lemma walk_skips:
  assumes "\<not> descends d"
  shows "walk root (Dir files (ds1 @ (d, sub) # ds2)) = walk root (Dir files (ds1 @ ds2))"
  using assms by simp

lemma walk_names:
  "valid_tree t \<Longrightarrow> (p, c) \<in> set (walk root t) \<Longrightarrow>
     \<exists>q. p = root @ q \<and> (\<forall>x \<in> set q. CHR ''/'' \<notin> set x)"
proof (induction root t arbitrary: p c rule: walk.induct)
  case (1 root files dirs)
  from "1.prems"(2) consider
      (here) f where "f \<in> set files" "p = root @ [fst f]"
    | (below) d where "d \<in> set dirs" "descends (fst d)" "(p, c) \<in> set (walk (root @ [fst d]) (snd d))"
    by auto
  then show ?case
  proof cases
    case here
    with "1.prems"(1) show ?thesis by auto
  next
    case below
    with "1.prems"(1) have "valid_tree (snd d)" "CHR ''/'' \<notin> set (fst d)" by auto
    with "1.IH" [of d p c] below obtain q where "p = (root @ [fst d]) @ q" "\<forall>x \<in> set q. CHR ''/'' \<notin> set x"
      by auto
    with \<open>CHR ''/'' \<notin> set (fst d)\<close> have "p = root @ (fst d # q) \<and> (\<forall>x \<in> set (fst d # q). CHR ''/'' \<notin> set x)"
      by simp
    then show ?thesis by blast
  qed
qed

lemma walk_functional:
  "valid_tree t \<Longrightarrow> (p, c) \<in> set (walk root t) \<Longrightarrow> (p, c') \<in> set (walk root t) \<Longrightarrow> c = c'"
proof (induction root t arbitrary: p c c' rule: walk.induct)
  case (1 root files dirs)
  have dfiles: "distinct (map fst files)" and ddirs: "distinct (map fst dirs)"
    using "1.prems"(1) by auto
  have in_files: "(n, c) \<in> set files" if "(root @ [n], c) \<in> set (walk root (Dir files dirs))" for n c
  proof -
    from that consider
        (here) f where "f \<in> set files" "root @ [n] = root @ [fst f]" "c = snd f"
      | (below) d where "(root @ [n], c) \<in> set (walk (root @ [fst d]) (snd d))"
      by auto
    then show ?thesis
    proof cases
      case here
      then show ?thesis by auto
    next
      case below
      from walk_paths [OF this] show ?thesis by auto
    qed
  qed
  from "1.prems"(2) consider
      (here) f where "f \<in> set files" "p = root @ [fst f]"
    | (below) d where "d \<in> set dirs" "descends (fst d)" "(p, c) \<in> set (walk (root @ [fst d]) (snd d))"
    by auto
  then show ?case
  proof cases
    case here
    have "(fst f, c) \<in> set files"
      using "1.prems"(2) unfolding here(2) by (rule in_files)
    moreover have "(fst f, c') \<in> set files"
      using "1.prems"(3) unfolding here(2) by (rule in_files)
    ultimately show ?thesis using dfiles by (metis eq_key_imp_eq_value)
  next
    case below
    from walk_paths [OF below(3)] obtain q where q: "p = root @ fst d # q" "q \<noteq> []" by auto
    from "1.prems"(3) consider
        (here') f where "f \<in> set files" "p = root @ [fst f]"
      | (below') e where "e \<in> set dirs" "descends (fst e)" "(p, c') \<in> set (walk (root @ [fst e]) (snd e))"
      by auto
    then show ?thesis
    proof cases
      case here'
      with q show ?thesis by simp
    next
      case below'
      from walk_paths [OF below'(3)] q have "fst e = fst d" by auto
      with ddirs below(1) below'(1) have "e = d"
        by (metis eq_key_imp_eq_value prod.collapse)
      with below below' "1.prems"(1) "1.IH" [of d p c c'] show ?thesis by auto
    qed
  qed
qed

lemma takeWhile_until:
  "c \<notin> set x \<Longrightarrow> takeWhile (\<lambda>a. a \<noteq> c) (x @ c # rest) = x"
  by (induction x) auto

lemma until_slash:
  assumes "CHR ''/'' \<notin> set x" "CHR ''/'' \<notin> set y" "x @ CHR ''/'' # a = y @ CHR ''/'' # b"
  shows "x = y \<and> a = b"
proof -
  have "takeWhile (\<lambda>c. c \<noteq> CHR ''/'') (x @ CHR ''/'' # a) = x"
    "takeWhile (\<lambda>c. c \<noteq> CHR ''/'') (y @ CHR ''/'' # b) = y"
    using assms(1,2) by (simp_all add: takeWhile_until)
  with assms(3) have "x = y" by simp
  with assms(3) show ?thesis by simp
qed

lemma str_path_Cons: "q \<noteq> [] \<Longrightarrow> str_path (x # q) = x @ CHR ''/'' # str_path q"
  by (cases q) simp_all

lemma str_path_inj:
  "p \<noteq> [] \<Longrightarrow> q \<noteq> [] \<Longrightarrow> \<forall>x \<in> set p. CHR ''/'' \<notin> set x \<Longrightarrow> \<forall>x \<in> set q. CHR ''/'' \<notin> set x \<Longrightarrow>
   str_path p = str_path q \<Longrightarrow> p = q"
proof (induction p arbitrary: q)
  case Nil
  then show ?case by simp
next
  case (Cons x p)
  from Cons.prems(2) obtain y q' where q: "q = y # q'" by (cases q) auto
  show ?case
  proof (cases "p = []")
    case True
    show ?thesis
    proof (cases "q' = []")
      case True
      with \<open>p = []\<close> q Cons.prems(5) show ?thesis by simp
    next
      case False
      with \<open>p = []\<close> q Cons.prems(5) have "x = y @ CHR ''/'' # str_path q'"
        by (simp add: str_path_Cons)
      with Cons.prems(3) show ?thesis by simp
    qed
  next
    case False
    show ?thesis
    proof (cases "q' = []")
      case True
      with False q Cons.prems(5) have "y = x @ CHR ''/'' # str_path p"
        by (simp add: str_path_Cons)
      with Cons.prems(4) q show ?thesis by simp
    next
      case q': False
      with False q Cons.prems(5) have "x @ CHR ''/'' # str_path p = y @ CHR ''/'' # str_path q'"
        by (simp add: str_path_Cons)
      with Cons.prems(3,4) q have "x = y" "str_path p = str_path q'"
        using until_slash [of x y "str_path p" "str_path q'"] by auto
      with Cons.IH [of q'] False q' Cons.prems(3,4) q show ?thesis by simp
    qed
  qed
qed

lemma find_md_files_functional:
  assumes "valid_tree t" "(f, c) \<in> set (find_md_files t)" "(f, c') \<in> set (find_md_files t)"
  shows "c = c'"
proof -
  from assms(2,3) obtain p p' where p: "(p, c) \<in> set (walk [] t)" "f = str_path p"
    and p': "(p', c') \<in> set (walk [] t)" "f = str_path p'"
    by (auto simp: find_md_files_def)
  from walk_paths [OF p(1)] walk_paths [OF p'(1)] have "p \<noteq> []" "p' \<noteq> []" by auto
  moreover from walk_names [OF assms(1) p(1)] walk_names [OF assms(1) p'(1)]
  have "\<forall>x \<in> set p. CHR ''/'' \<notin> set x" "\<forall>x \<in> set p'. CHR ''/'' \<notin> set x" by auto
  ultimately have "p = p'" using p(2) p'(2) by (intro str_path_inj) auto
  with p(1) p'(1) assms(1) show ?thesis by (auto dest: walk_functional)
qed

lemma enumerate_from_lower: "(n, x) \<in> set (enumerate_from k xs) \<Longrightarrow> k \<le> n"
  by (induction xs arbitrary: k) (auto, force)

lemma enumerate_from_functional:
  "(n, x) \<in> set (enumerate_from k xs) \<Longrightarrow> (n, y) \<in> set (enumerate_from k xs) \<Longrightarrow> x = y"
  by (induction xs arbitrary: k) (auto dest: enumerate_from_lower)

lemma scan_file_origin:
  assumes "v \<in> set (fst (scan_file doc))"
  shows "\<exists>content l. doc = (v_file v, Some content) \<and>
           (v_line v, l) \<in> set (enumerate_from 1 (split_lines content)) \<and>
           v_context v = take 100 (strip l)"
  using assms
  by (cases doc) (auto simp: scan_file_def line_violations_def pattern_violations_def split: option.splits)

lemma scan_all_origin:
  assumes "v \<in> set (fst (scan_all docs))"
  shows "\<exists>content l. (v_file v, Some content) \<in> set docs \<and>
           (v_line v, l) \<in> set (enumerate_from 1 (split_lines content)) \<and>
           v_context v = take 100 (strip l)"
proof -
  from assms obtain doc where "doc \<in> set docs" "v \<in> set (fst (scan_file doc))"
    by (auto simp: fst_scan_all)
  with scan_file_origin [of v doc] show ?thesis by auto
qed

section \<open>The claims\<close>

text \<open>
  C1. With \<open>--update-baseline\<close> the claim has the baseline rewritten with all current
  findings whether the run succeeds or fails. The code leaves through \<open>sys.exit(1)\<close>
  before it looks at the flag: run with the flag on one document with one new address, no
  baseline and a baseline file that could be written, the program exits with status 1,
  writes nothing and does not print that the baseline was updated.
\<close>

theorem update_flag_unreached_on_failure:
  "''--update-baseline'' \<in> set update_args
   \<and> baseline_writable contact_fs
   \<and> all_violations_of contact_fs = [jane_at ''CONTACT.md'' 1]
   \<and> outcome (main contact_fs update_args) = Exit 1
   \<and> fs_after (main contact_fs update_args) = contact_fs
   \<and> baseline_json (fs_after (main contact_fs update_args)) = Absent
   \<and> Updated_baseline \<notin> set (printed (main contact_fs update_args))"
proof -
  have loaded: "baseline_signatures contact_fs = Inr []"
    by (simp add: baseline_signatures_absent contact_fs_def)
  have new: "new_violations_of (all_violations_of contact_fs) [] \<noteq> []"
    by (simp add: contact_violations new_violations_of_def)
  have "baseline_json contact_fs = Absent" "baseline_writable contact_fs"
    by (simp_all add: contact_fs_def)
  with main_failure [OF loaded new, of update_args] outcome_main_loaded [OF loaded, of update_args] new
  show ?thesis
    by (simp add: contact_violations update_args_def)
qed

text \<open>
  C2. In the example scenario the claim has one finding, the address of line 3, the
  number of line 5 being allowlisted. The phone pattern cannot take the \<open>+1\<close> of
  \<open>+1234567890\<close> as its prefix, since only nine digits follow; it matches the ten
  digits \<open>1234567890\<close>, which no allowlist entry matches without the plus sign. The scan
  yields two findings, both new; the exit status is 1.
\<close>

theorem example_scenario_reports_phone:
  "finditer us_phone_pattern ''Call +1234567890'' = [''1234567890'']
   \<and> \<not> is_allowed_pattern ''1234567890''
   \<and> all_violations_of scenario_fs = [jane_at ''docs/a.md'' 3, fake_phone]
   \<and> baseline_signatures scenario_fs = Inr []
   \<and> new_violations_of (all_violations_of scenario_fs) [] = [jane_at ''docs/a.md'' 3, fake_phone]
   \<and> length (all_violations_of scenario_fs) = 2
   \<and> exit_code (outcome (main scenario_fs script_args)) = 1"
proof -
  have loaded: "baseline_signatures scenario_fs = Inr []"
    by (simp add: baseline_signatures_absent scenario_fs_def)
  have new: "new_violations_of (all_violations_of scenario_fs) [] = [jane_at ''docs/a.md'' 3, fake_phone]"
    by (simp add: scenario_violations new_violations_of_def)
  with outcome_main_loaded [OF loaded, of script_args] phone_candidate phone_not_allowed loaded
  show ?thesis
    by (simp add: scenario_violations)
qed

text \<open>
  C3, as amended. In every run that ends through the gate, that is, that no uncaught
  exception ends, the exit status is 0 if and only if no finding is new, and it is 1 if
  and only if a finding is new. Whenever the signatures of the baseline can be built,
  a new finding gives the status 1, and no new finding gives the status 0 unless
  \<open>--update-baseline\<close> is given and the baseline file cannot be written. An uncaught
  exception ends the run exactly when the baseline cannot be read, is not JSON or is
  not an array of objects with the four fields, or when that write fails.
\<close>

theorem exit_code_contract:
  "(outcome (main fs argv) = Exit n \<longrightarrow>
      (\<exists>sigs. baseline_signatures fs = Inr sigs \<and>
              (n = 0 \<longleftrightarrow> new_violations_of (all_violations_of fs) sigs = []) \<and>
              (n = 1 \<longleftrightarrow> new_violations_of (all_violations_of fs) sigs \<noteq> [])))
   \<and> (baseline_signatures fs = Inr sigs \<and>
        new_violations_of (all_violations_of fs) sigs \<noteq> [] \<longrightarrow>
        exit_code (outcome (main fs argv)) = 1)
   \<and> (baseline_signatures fs = Inr sigs \<and>
        new_violations_of (all_violations_of fs) sigs = [] \<and>
        (''--update-baseline'' \<in> set argv \<longrightarrow> baseline_writable fs) \<longrightarrow>
        exit_code (outcome (main fs argv)) = 0)
   \<and> (outcome (main fs argv) = Uncaught e \<longleftrightarrow>
        baseline_signatures fs = Inl e \<or>
        (\<exists>sigs. baseline_signatures fs = Inr sigs \<and>
                new_violations_of (all_violations_of fs) sigs = [] \<and>
                ''--update-baseline'' \<in> set argv \<and> \<not> baseline_writable fs \<and> e = OSError))"
  by (cases "baseline_signatures fs") (auto simp: outcome_main)

text \<open>The amended claim at four runs: one finding new; every finding in the baseline;
  the same with the flag and a baseline file that cannot be written; a baseline entry
  without a line.\<close>

theorem exit_code_contract_witness:
  "outcome (main contact_fs script_args) = Exit 1
   \<and> (\<exists>sigs. baseline_signatures contact_fs = Inr sigs \<and>
              new_violations_of (all_violations_of contact_fs) sigs \<noteq> [])
   \<and> baseline_signatures fixture_fs = Inr [signature (jane_at ''guide.md'' 2)]
   \<and> new_violations_of (all_violations_of fixture_fs) [signature (jane_at ''guide.md'' 2)] = []
   \<and> ''--update-baseline'' \<in> set update_args
   \<and> baseline_writable fixture_fs
   \<and> exit_code (outcome (main fixture_fs update_args)) = 0
   \<and> baseline_signatures readonly_fs = Inr [signature (jane_at ''guide.md'' 2)]
   \<and> new_violations_of (all_violations_of readonly_fs) [signature (jane_at ''guide.md'' 2)] = []
   \<and> \<not> baseline_writable readonly_fs
   \<and> outcome (main readonly_fs update_args) = Uncaught OSError
   \<and> exit_code (outcome (main readonly_fs script_args)) = 0
   \<and> baseline_signatures partial_fs = Inl KeyError
   \<and> outcome (main partial_fs script_args) = Uncaught KeyError"
proof -
  have c: "baseline_signatures contact_fs = Inr []"
    by (simp add: baseline_signatures_absent contact_fs_def)
  have cn: "new_violations_of (all_violations_of contact_fs) [] \<noteq> []"
    by (simp add: contact_violations new_violations_of_def)
  have co: "outcome (main contact_fs script_args) = Exit 1"
    by (simp add: outcome_main_loaded [OF c] cn)
  have f: "baseline_signatures fixture_fs = Inr [signature (jane_at ''guide.md'' 2)]"
    using baseline_signatures_stored [of fixture_fs "[jane_at ''guide.md'' 2]"]
    by (simp add: fixture_fs_def)
  have fn: "new_violations_of (all_violations_of fixture_fs) [signature (jane_at ''guide.md'' 2)] = []"
    by (simp add: fixture_violations new_violations_of_def)
  have r: "baseline_signatures readonly_fs = Inr [signature (jane_at ''guide.md'' 2)]"
    using f by (simp add: readonly_fs_def baseline_signatures_def load_baseline_def)
  have rn: "new_violations_of (all_violations_of readonly_fs) [signature (jane_at ''guide.md'' 2)] = []"
    using fn by (simp add: readonly_fs_def all_violations_of_def)
  have p: "baseline_signatures partial_fs = Inl KeyError"
    by (simp add: partial_fs_def baseline_signatures_def load_baseline_def and_then_def
        subscript_def)
  have flag: "''--update-baseline'' \<in> set update_args"
    and no_flag: "''--update-baseline'' \<notin> set script_args"
    by (simp_all add: update_args_def script_args_def)
  have w: "baseline_writable fixture_fs" and nw: "\<not> baseline_writable readonly_fs"
    by (simp_all add: fixture_fs_def readonly_fs_def)
  from exit_code_contract [of contact_fs script_args 1 "[]" OSError] co
  have one: "\<exists>sigs. baseline_signatures contact_fs = Inr sigs \<and>
      new_violations_of (all_violations_of contact_fs) sigs \<noteq> []"
    by blast
  from exit_code_contract [of fixture_fs update_args 0 "[signature (jane_at ''guide.md'' 2)]" OSError]
    f fn w
  have two: "exit_code (outcome (main fixture_fs update_args)) = 0"
    by blast
  from exit_code_contract [of readonly_fs update_args 0 "[signature (jane_at ''guide.md'' 2)]" OSError]
    r rn flag nw
  have three: "outcome (main readonly_fs update_args) = Uncaught OSError"
    by blast
  from exit_code_contract [of readonly_fs script_args 0 "[signature (jane_at ''guide.md'' 2)]" OSError]
    r rn no_flag
  have four: "exit_code (outcome (main readonly_fs script_args)) = 0"
    by blast
  from exit_code_contract [of partial_fs script_args 0 "[]" KeyError] p
  have five: "outcome (main partial_fs script_args) = Uncaught KeyError"
    by blast
  from exit_code_contract [of partial_fs script_args 0 "[]" KeyError]
    co one f fn flag w two r rn nw three four p five
  show ?thesis
    by blast
qed

text \<open>
  C3, as stated, fails: with no document at all there is no finding, new or not, and
  yet a baseline file that is not JSON ends the run with the status 1 of an uncaught
  exception.
\<close>

theorem exit_code_counterexample:
  "all_violations_of broken_fs = []
   \<and> exit_code (outcome (main broken_fs script_args)) \<noteq> 0"
proof -
  have "baseline_signatures broken_fs = Inl JSONDecodeError"
    by (simp add: broken_fs_def baseline_signatures_def load_baseline_def and_then_def)
  then have "outcome (main broken_fs script_args) = Uncaught JSONDecodeError"
    by (simp add: outcome_main)
  moreover have "all_violations_of broken_fs = []"
    by (simp add: broken_fs_def fs_eval)
  ultimately show ?thesis by simp
qed

text \<open>
  C4, as amended. The findings of a scan are not de-duplicated: there is one for each
  match. Over a tree whose names are those of a file system, two findings of one scan
  with the same identifying tuple (file, line, kind, text) are equal in every field,
  the context included.
\<close>

theorem same_tuple_same_finding:
  assumes "valid_tree (tree fs)"
    and "v \<in> set (all_violations_of fs)" and "w \<in> set (all_violations_of fs)"
    and "identifying v = identifying w"
  shows "v = w"
proof -
  let ?docs = "find_md_files (tree fs)"
  from assms(2) scan_all_origin [of v ?docs] obtain c l where
    v: "(v_file v, Some c) \<in> set ?docs" "(v_line v, l) \<in> set (enumerate_from 1 (split_lines c))"
       "v_context v = take 100 (strip l)"
    by (auto simp: all_violations_of_def)
  from assms(3) scan_all_origin [of w ?docs] obtain c' l' where
    w: "(v_file w, Some c') \<in> set ?docs" "(v_line w, l') \<in> set (enumerate_from 1 (split_lines c'))"
       "v_context w = take 100 (strip l')"
    by (auto simp: all_violations_of_def)
  from assms(4) have same: "v_file v = v_file w" "v_line v = v_line w" "v_type v = v_type w"
    "v_text v = v_text w"
    by (simp_all add: identifying_def)
  with v(1) w(1) assms(1) have "Some c = Some c'"
    by (auto dest: find_md_files_functional)
  with v(2) w(2) same(2) have "l = l'"
    by (auto dest: enumerate_from_functional)
  with v(3) w(3) have "v_context v = v_context w" by simp
  with same show ?thesis by simp
qed

text \<open>The amended claim at the example scenario: the finding of line 3 is the only
  finding with its tuple, the finding of line 5 has another one.\<close>

theorem same_tuple_same_finding_witness:
  "valid_tree (tree scenario_fs)
   \<and> jane_at ''docs/a.md'' 3 \<in> set (all_violations_of scenario_fs)
   \<and> fake_phone \<in> set (all_violations_of scenario_fs)
   \<and> identifying (jane_at ''docs/a.md'' 3) = identifying (jane_at ''docs/a.md'' 3)
   \<and> identifying (jane_at ''docs/a.md'' 3) \<noteq> identifying fake_phone
   \<and> jane_at ''docs/a.md'' 3 \<noteq> fake_phone"
proof -
  have t: "valid_tree (tree scenario_fs)"
    by (simp add: scenario_fs_def)
  have j: "jane_at ''docs/a.md'' 3 \<in> set (all_violations_of scenario_fs)"
    and p: "fake_phone \<in> set (all_violations_of scenario_fs)"
    by (simp_all add: scenario_violations)
  have d: "jane_at ''docs/a.md'' 3 \<noteq> fake_phone"
    by (simp add: jane_at_def fake_phone_def)
  from same_tuple_same_finding [OF t j p] d
  have "identifying (jane_at ''docs/a.md'' 3) \<noteq> identifying fake_phone" by blast
  with same_tuple_same_finding [OF t j j] t j p d show ?thesis by simp
qed

text \<open>
  C4, as stated, fails: a line that names the same address twice gives two findings
  with the same identifying tuple, and both are reported.
\<close>

theorem duplicate_findings_counterexample:
  "all_violations_of twice_fs = [xy_at ''team.md'', xy_at ''team.md'']
   \<and> \<not> distinct (map identifying (all_violations_of twice_fs))"
  by (simp add: twice_violations)

text \<open>
  C5. A matched text that the allowlist covers is dropped when the line is scanned: it
  is the text of no finding of the scan, of no finding that the run lists as new or
  existing, and of no entry of a baseline that \<open>--update-baseline\<close> writes.
\<close>

theorem allowlist_suppression:
  assumes "is_allowed_pattern text"
  shows "text \<notin> set (map v_text (pattern_violations file_name n line entry))
       \<and> text \<notin> set (map v_text (all_violations_of fs))
       \<and> (\<forall>b v. Listed b v \<in> set (printed (main fs argv)) \<longrightarrow> v_text v \<noteq> text)
       \<and> (\<forall>v. New_violation v \<in> set (printed (main fs argv)) \<longrightarrow> v_text v \<noteq> text)
       \<and> (''--update-baseline'' \<in> set argv \<and> outcome (main fs argv) = Exit 0 \<longrightarrow>
            (\<exists>vs. baseline_json (fs_after (main fs argv)) = Stored vs \<and>
                  text \<notin> set (map v_text vs)))"
proof -
  have a: "text \<notin> set (map v_text (all_violations_of fs))"
    using assms all_violations_not_allowed by auto
  have "text \<notin> set (map v_text (pattern_violations file_name n line entry))"
    using assms by (simp add: pattern_violations_texts)
  moreover have "\<forall>b v. Listed b v \<in> set (printed (main fs argv)) \<longrightarrow> v_text v \<noteq> text"
    using assms all_violations_not_allowed listed_in_main by blast
  moreover have "\<forall>v. New_violation v \<in> set (printed (main fs argv)) \<longrightarrow> v_text v \<noteq> text"
    using assms all_violations_not_allowed new_violation_in_main by blast
  moreover have "''--update-baseline'' \<in> set argv \<and> outcome (main fs argv) = Exit 0 \<longrightarrow>
            (\<exists>vs. baseline_json (fs_after (main fs argv)) = Stored vs \<and>
                  text \<notin> set (map v_text vs))"
    using a updated_baseline by blast
  ultimately show ?thesis using a by blast
qed

text \<open>The claim at a document whose first line has the allowlisted address
  \<open>example@example.com\<close>: the pattern matches it, the scan and the baseline written by
  the run hold the other address only.\<close>

theorem allowlist_suppression_witness:
  "is_allowed_pattern ''example@example.com''
   \<and> ''example@example.com'' \<in> set (finditer email_pattern ''write to example@example.com'')
   \<and> pattern_violations ''guide.md'' 1 ''write to example@example.com'' (''email'', email_pattern) = []
   \<and> all_violations_of fixture_fs = [jane_at ''guide.md'' 2]
   \<and> ''--update-baseline'' \<in> set update_args
   \<and> outcome (main fixture_fs update_args) = Exit 0
   \<and> baseline_json (fs_after (main fixture_fs update_args)) = Stored [jane_at ''guide.md'' 2]
   \<and> ''example@example.com'' \<notin> set (map v_text [jane_at ''guide.md'' 2])"
proof -
  have loaded: "baseline_signatures fixture_fs = Inr [signature (jane_at ''guide.md'' 2)]"
    using baseline_signatures_stored [of fixture_fs "[jane_at ''guide.md'' 2]"]
    by (simp add: fixture_fs_def)
  have flag: "''--update-baseline'' \<in> set update_args"
    by (simp add: update_args_def)
  have ok: "outcome (main fixture_fs update_args) = Exit 0"
    by (simp add: outcome_main_loaded [OF loaded] fixture_violations new_violations_of_def)
       (simp add: fixture_fs_def)
  have written: "baseline_json (fs_after (main fixture_fs update_args)) = Stored [jane_at ''guide.md'' 2]"
    using updated_baseline [OF flag ok] by (simp add: fixture_violations)
  have dropped: "pattern_violations ''guide.md'' 1 ''write to example@example.com'' (''email'', email_pattern) = []"
    by (simp add: pattern_violations_def fixture_candidate fixture_allowed)
  have other: "''example@example.com'' \<notin> set (map v_text [jane_at ''guide.md'' 2])"
    by (simp add: jane_at_def)
  from allowlist_suppression [OF fixture_allowed, of "''guide.md''" 1
      "''write to example@example.com''" "(''email'', email_pattern)" fixture_fs update_args]
    fixture_allowed flag ok written dropped other
  show ?thesis
    by (simp add: fixture_candidate fixture_violations)
qed

text \<open>
  C6. Saving the findings of a scan as the baseline and scanning the same documents
  again leaves no finding new: the saved file loads as the saved list, every finding
  has its signature in it and is listed as existing, and the exit status is 0.
\<close>

theorem baseline_round_trip:
  assumes "save_baseline (all_violations_of fs) fs = Inr saved"
  shows "load_baseline saved = Inr (Array (map to_json (all_violations_of fs)))
       \<and> baseline_signatures saved = Inr (map signature (all_violations_of fs))
       \<and> all_violations_of saved = all_violations_of fs
       \<and> new_violations_of (all_violations_of saved) (map signature (all_violations_of fs)) = []
       \<and> Listed True v \<notin> set (printed (main saved argv))
       \<and> outcome (main saved argv) = Exit 0"
proof -
  from assms have saved: "saved = fs\<lparr>baseline_json := Stored (all_violations_of fs)\<rparr>"
    and writable: "baseline_writable fs"
    by (simp_all add: save_baseline_result)
  have same: "all_violations_of saved = all_violations_of fs"
    by (simp add: saved all_violations_of_def)
  have sigs: "baseline_signatures saved = Inr (map signature (all_violations_of fs))"
    by (rule baseline_signatures_stored) (simp add: saved)
  have "load_baseline saved = Inr (Array (map to_json (all_violations_of fs)))"
    by (simp add: saved load_baseline_def Stored_def)
  moreover have "baseline_writable saved"
    using writable by (simp add: saved)
  ultimately show ?thesis
    by (simp add: sigs same new_violations_of_self outcome_main_loaded [OF sigs]
        listed_status [OF sigs])
qed

text \<open>The claim at the example scenario, whose scan has two findings.\<close>

theorem baseline_round_trip_witness:
  "all_violations_of scenario_fs = [jane_at ''docs/a.md'' 3, fake_phone]
   \<and> exit_code (outcome (main scenario_fs script_args)) = 1
   \<and> save_baseline (all_violations_of scenario_fs) scenario_fs =
       Inr (scenario_fs\<lparr>baseline_json := Stored [jane_at ''docs/a.md'' 3, fake_phone]\<rparr>)
   \<and> exit_code (outcome (main (scenario_fs\<lparr>baseline_json :=
        Stored [jane_at ''docs/a.md'' 3, fake_phone]\<rparr>) script_args)) = 0"
proof -
  have loaded: "baseline_signatures scenario_fs = Inr []"
    by (simp add: baseline_signatures_absent scenario_fs_def)
  have first: "outcome (main scenario_fs script_args) = Exit 1"
    by (simp add: outcome_main_loaded [OF loaded] scenario_violations new_violations_of_def)
  have saved: "save_baseline (all_violations_of scenario_fs) scenario_fs =
      Inr (scenario_fs\<lparr>baseline_json := Stored [jane_at ''docs/a.md'' 3, fake_phone]\<rparr>)"
    by (simp add: save_baseline_def scenario_violations) (simp add: scenario_fs_def)
  from baseline_round_trip [OF saved, of "jane_at ''docs/a.md'' 3" script_args] first saved
  show ?thesis
    by (simp add: scenario_violations)
qed

text \<open>
  C7. A document that cannot be read or decoded is logged and gives no finding; the
  documents before and after it are scanned as without it. No uncaught exception of a
  run comes from a document: one comes from the baseline or none at all, the run ends
  with the status of the gate when the baseline can be used, and it ends as the run
  without the unreadable document does.
\<close>

theorem unreadable_document_skipped:
  "scan_file (p, None) = ([], [Error_scanning p])
   \<and> fst (scan_all (before @ (p, None) # rest)) = fst (scan_all before) @ fst (scan_all rest)
   \<and> snd (scan_all (before @ (p, None) # rest)) =
       snd (scan_all before) @ Error_scanning p # snd (scan_all rest)
   \<and> (baseline_signatures fs = Inr sigs \<and>
        (''--update-baseline'' \<in> set argv \<longrightarrow> baseline_writable fs) \<longrightarrow>
        outcome (main fs argv) \<in> {Exit 0, Exit 1})
   \<and> (outcome (main fs argv) = Uncaught e \<longrightarrow>
        baseline_signatures fs = Inl e \<or>
        (e = OSError \<and> ''--update-baseline'' \<in> set argv \<and> \<not> baseline_writable fs))
   \<and> all_violations_of (fs\<lparr>tree := Dir (files1 @ (name, None) # files2) dirs\<rparr>) =
       all_violations_of (fs\<lparr>tree := Dir (files1 @ files2) dirs\<rparr>)
   \<and> outcome (main (fs\<lparr>tree := Dir (files1 @ (name, None) # files2) dirs\<rparr>) argv) =
       outcome (main (fs\<lparr>tree := Dir (files1 @ files2) dirs\<rparr>) argv)"
proof -
  have "outcome (main fs argv) \<in> {Exit 0, Exit 1}"
    if "baseline_signatures fs = Inr sigs" "''--update-baseline'' \<in> set argv \<longrightarrow> baseline_writable fs"
    using that by (auto simp: outcome_main)
  moreover have "baseline_signatures fs = Inl e \<or>
      (e = OSError \<and> ''--update-baseline'' \<in> set argv \<and> \<not> baseline_writable fs)"
    if "outcome (main fs argv) = Uncaught e"
    using that by (cases "baseline_signatures fs") (auto simp: outcome_main split: if_splits)
  ultimately show ?thesis
    by (simp add: scan_all_append scan_file_unreadable unreadable_top_file_violations
        unreadable_top_file_outcome)
qed

text \<open>The claim at three documents of which the second cannot be read.\<close>

theorem unreadable_document_skipped_witness:
  "baseline_signatures mixed_fs = Inr []
   \<and> ''--update-baseline'' \<notin> set script_args
   \<and> all_violations_of mixed_fs = [xy_at ''a.md'', xy_at ''a.md'', jane_at ''c.md'' 1]
   \<and> snd (scan_all (find_md_files (tree mixed_fs))) = [Error_scanning ''b.md'']
   \<and> outcome (main mixed_fs script_args) \<in> {Exit 0, Exit 1}
   \<and> outcome (main mixed_fs script_args) =
       outcome (main (mixed_fs\<lparr>tree := Dir [(''a.md'', Some ''x@y.io x@y.io''),
          (''c.md'', Some ''Contact: jane.doe@example.org'')] []\<rparr>) script_args)"
proof -
  have sigs: "baseline_signatures mixed_fs = Inr []"
    by (simp add: baseline_signatures_absent mixed_fs_def)
  have flag: "''--update-baseline'' \<notin> set script_args"
    by (simp add: script_args_def)
  have whole: "mixed_fs\<lparr>tree := Dir ([(''a.md'', Some ''x@y.io x@y.io'')] @ (''b.md'', None) #
      [(''c.md'', Some ''Contact: jane.doe@example.org'')]) []\<rparr> = mixed_fs"
    by (simp add: mixed_fs_def)
  note skipped = unreadable_document_skipped [of "''b.md''" "[(''a.md'', Some ''x@y.io x@y.io'')]"
      "[(''c.md'', Some ''Contact: jane.doe@example.org'')]" mixed_fs "[]" script_args OSError
      "[(''a.md'', Some ''x@y.io x@y.io'')]" "''b.md''"
      "[(''c.md'', Some ''Contact: jane.doe@example.org'')]" "[]"]
  from skipped sigs flag have gate: "outcome (main mixed_fs script_args) \<in> {Exit 0, Exit 1}"
    by blast
  from skipped have "outcome (main (mixed_fs\<lparr>tree := Dir ([(''a.md'', Some ''x@y.io x@y.io'')] @
      (''b.md'', None) # [(''c.md'', Some ''Contact: jane.doe@example.org'')]) []\<rparr>) script_args) =
    outcome (main (mixed_fs\<lparr>tree := Dir ([(''a.md'', Some ''x@y.io x@y.io'')] @
      [(''c.md'', Some ''Contact: jane.doe@example.org'')]) []\<rparr>) script_args)"
    by blast
  then have same: "outcome (main mixed_fs script_args) =
      outcome (main (mixed_fs\<lparr>tree := Dir [(''a.md'', Some ''x@y.io x@y.io''),
          (''c.md'', Some ''Contact: jane.doe@example.org'')] []\<rparr>) script_args)"
    unfolding whole by simp
  have found: "all_violations_of mixed_fs = [xy_at ''a.md'', xy_at ''a.md'', jane_at ''c.md'' 1]"
    by (simp add: all_violations_of_def mixed_docs mixed_scans scan_file_unreadable)
  have logged: "snd (scan_all (find_md_files (tree mixed_fs))) = [Error_scanning ''b.md'']"
    by (simp add: mixed_docs mixed_scans scan_file_unreadable)
  from skipped sigs flag found logged gate same show ?thesis
    by blast
qed

text \<open>
  C8. Loading an absent baseline gives the empty list. When the baseline file is
  malformed, loading raises, nothing catches the error, and the run ends there: it has
  printed the progress lines only, no listing and no verdict, and has written nothing.
  The same holds for every baseline from which the signatures cannot be built.
\<close>

theorem load_baseline_contract:
  "(baseline_json fs = Absent \<longrightarrow>
      load_baseline fs = Inr (Array []) \<and> baseline_signatures fs = Inr [])
   \<and> (baseline_json fs = Malformed \<longrightarrow>
        load_baseline fs = Inl JSONDecodeError
        \<and> outcome (main fs argv) = Uncaught JSONDecodeError
        \<and> list_all is_progress (printed (main fs argv))
        \<and> fs_after (main fs argv) = fs)
   \<and> (baseline_signatures fs = Inl e \<longrightarrow>
        outcome (main fs argv) = Uncaught e
        \<and> list_all is_progress (printed (main fs argv))
        \<and> fs_after (main fs argv) = fs)"
proof -
  have general: "outcome (main fs argv) = Uncaught e \<and> list_all is_progress (printed (main fs argv))
      \<and> fs_after (main fs argv) = fs"
    if "baseline_signatures fs = Inl e" for e
    using that progress_without_signatures [OF that, of argv]
    by (simp add: main_without_signatures)
  have "baseline_signatures fs = Inl JSONDecodeError" if "baseline_json fs = Malformed"
    using that by (simp add: baseline_signatures_def load_baseline_def and_then_def)
  with general [of JSONDecodeError] general [of e] show ?thesis
    by (auto simp: load_baseline_def baseline_signatures_absent)
qed

text \<open>The claim at a tree without baseline, at one with a malformed baseline and at one
  whose baseline has an entry without a line.\<close>

theorem load_baseline_contract_witness:
  "baseline_json scenario_fs = Absent
   \<and> load_baseline scenario_fs = Inr (Array [])
   \<and> baseline_json broken_fs = Malformed
   \<and> load_baseline broken_fs = Inl JSONDecodeError
   \<and> outcome (main broken_fs update_args) = Uncaught JSONDecodeError
   \<and> list_all is_progress (printed (main broken_fs update_args))
   \<and> fs_after (main broken_fs update_args) = broken_fs
   \<and> baseline_signatures partial_fs = Inl KeyError
   \<and> outcome (main partial_fs update_args) = Uncaught KeyError
   \<and> fs_after (main partial_fs update_args) = partial_fs"
proof -
  have a: "baseline_json scenario_fs = Absent"
    by (simp add: scenario_fs_def)
  have m: "baseline_json broken_fs = Malformed"
    by (simp add: broken_fs_def)
  have p: "baseline_signatures partial_fs = Inl KeyError"
    by (simp add: partial_fs_def baseline_signatures_def load_baseline_def and_then_def
        subscript_def)
  from load_baseline_contract [of scenario_fs script_args KeyError]
    load_baseline_contract [of broken_fs update_args KeyError]
    load_baseline_contract [of partial_fs update_args KeyError] a m p
  show ?thesis by simp
qed

text \<open>
  C9. No discovered document lies below a directory whose name starts with a dot or
  is \<open>node_modules\<close>. The walk drops such a directory before it descends: whatever the
  directory holds, the result is that of the tree without it.
\<close>

theorem pruned_directories_never_discovered:
  "((p, c) \<in> set (walk [] t) \<longrightarrow>
      p \<noteq> [] \<and> (\<forall>d \<in> set (butlast p). \<not> startswith d ''.'' \<and> d \<noteq> ''node_modules''))
   \<and> (startswith d ''.'' \<or> d = ''node_modules'' \<longrightarrow>
        walk root (Dir files (ds1 @ (d, sub) # ds2)) = walk root (Dir files (ds1 @ ds2)))"
proof -
  have "p \<noteq> [] \<and> (\<forall>d \<in> set (butlast p). \<not> startswith d ''.'' \<and> d \<noteq> ''node_modules'')"
    if "(p, c) \<in> set (walk [] t)"
    using walk_paths [OF that] by (auto simp: descends_def)
  moreover have "walk root (Dir files (ds1 @ (d, sub) # ds2)) = walk root (Dir files (ds1 @ ds2))"
    if "startswith d ''.'' \<or> d = ''node_modules''"
    using that by (intro walk_skips) (auto simp: descends_def)
  ultimately show ?thesis by blast
qed

text \<open>The claim at a tree with markdown files under \<open>.git\<close> and under
  \<open>docs/node_modules\<close>: two documents are found, and the tree without \<open>.git\<close> gives
  the same two.\<close>

theorem pruned_directories_never_discovered_witness:
  "([''docs'', ''a.md''], Some scenario_doc) \<in> set (walk [] repo_tree)
   \<and> startswith ''.git'' ''.''
   \<and> find_md_files repo_tree = [(''README.md'', Some ''hello''), (''docs/a.md'', Some scenario_doc)]
   \<and> walk []
        (Dir [(''README.md'', Some ''hello''), (''LICENSE'', Some ''free'')]
             ([] @ (''.git'', git_dir) #
              [(''docs'', Dir [(''a.md'', Some scenario_doc)] [(''node_modules'', vendor_dir)])])) =
      walk []
        (Dir [(''README.md'', Some ''hello''), (''LICENSE'', Some ''free'')]
             ([] @
              [(''docs'', Dir [(''a.md'', Some scenario_doc)] [(''node_modules'', vendor_dir)])]))"
proof -
  have found: "([''docs'', ''a.md''], Some scenario_doc) \<in> set (walk [] repo_tree)"
    by (simp add: repo_walk)
  have hidden: "startswith ''.git'' ''.''"
    by (simp add: startswith_def)
  from pruned_directories_never_discovered [of "[''docs'', ''a.md'']" "Some scenario_doc" repo_tree
      "''.git''" "[]" "[(''README.md'', Some ''hello''), (''LICENSE'', Some ''free'')]" "[]" git_dir
      "[(''docs'', Dir [(''a.md'', Some scenario_doc)] [(''node_modules'', vendor_dir)])]"]
    found hidden
  show ?thesis
    by (simp add: find_md_files_def repo_walk)
qed

text \<open>
  C10. The signature joins file, line, kind and text with colons and escapes nothing,
  so two findings with different identifying tuples can have the same signature: a
  baseline entry for the file \<open>docs\<close>, line 7, whose text has colons, has the signature
  of the finding of line 3 of the file \<open>docs:7:email:x.md\<close>, and the run takes that
  finding for an existing one.
\<close>

theorem signature_collision:
  "(\<exists>v w. identifying v \<noteq> identifying w \<and> signature v = signature w)
   \<and> identifying (jane_at ''docs:7:email:x.md'' 3) \<noteq> identifying colon_entry
   \<and> signature (jane_at ''docs:7:email:x.md'' 3) = signature colon_entry
   \<and> signature colon_entry = ''docs:7:email:x.md:3:email:jane.doe@example.org''
   \<and> all_violations_of colon_fs = [jane_at ''docs:7:email:x.md'' 3]
   \<and> baseline_json colon_fs = Stored [colon_entry]
   \<and> load_baseline colon_fs = Inr (Array [to_json colon_entry])
   \<and> baseline_signatures colon_fs = Inr [signature colon_entry]
   \<and> new_violations_of (all_violations_of colon_fs) [signature colon_entry] = []
   \<and> Listed False (jane_at ''docs:7:email:x.md'' 3) \<in> set (printed (main colon_fs script_args))
   \<and> outcome (main colon_fs script_args) = Exit 0"
proof -
  have differ: "identifying (jane_at ''docs:7:email:x.md'' 3) \<noteq> identifying colon_entry"
    by (simp add: identifying_def jane_at_def colon_entry_def)
  have rendered: "signature colon_entry = ''docs:7:email:x.md:3:email:jane.doe@example.org''"
    by (simp add: signature_def colon_entry_def str_int_def digit_chars)
  have stored: "baseline_json colon_fs = Stored [colon_entry]"
    by (simp add: colon_fs_def)
  have loaded: "load_baseline colon_fs = Inr (Array [to_json colon_entry])"
    by (simp add: load_baseline_def colon_fs_def Stored_def)
  have sigs: "baseline_signatures colon_fs = Inr [signature colon_entry]"
    using baseline_signatures_stored [OF stored] by simp
  have none_new: "new_violations_of (all_violations_of colon_fs) [signature colon_entry] = []"
    by (simp add: colon_violations new_violations_of_def colon_signatures)
  have "Listed False (jane_at ''docs:7:email:x.md'' 3) \<in> set (printed (main colon_fs script_args))"
    by (simp add: listed_status [OF sigs] none_new) (simp add: colon_violations)
  moreover have "outcome (main colon_fs script_args) = Exit 0"
    by (simp add: outcome_main_loaded [OF sigs] none_new script_args_def)
  moreover have "\<exists>v w. identifying v \<noteq> identifying w \<and> signature v = signature w"
    using differ colon_signatures by blast
  ultimately show ?thesis
    using differ rendered stored loaded sigs none_new colon_signatures colon_violations by simp
qed

end
